theory Spec2Isabelle
  imports Main "HOL-Library.AList"
begin

section \<open>The connection pool of django\_nameko/rpc.py\<close>

text \<open>
  The module keeps a pool of RPC sessions in a \<^verbatim>\<open>queue.Queue\<close> of the Python
  standard library.  Objects are mutated in place in the source; here every operation
  takes the state it reads and returns the state it leaves, together with how the call
  ended.  A call either returns a value, raises, or never returns (a wait on a queue or on
  a lock that no other thread is there to end).
\<close>

subsection \<open>Exceptions, values and outcomes\<close>

text \<open>
  The exception classes.  \<^verbatim>\<open>ConnectionError\<close> is the class the module imports,
  \<^verbatim>\<open>amqp.exceptions.ConnectionError\<close>; \<^verbatim>\<open>ConnectionForced\<close> is one of its subclasses
  in that library; \<^verbatim>\<open>ConnectionRefusedError\<close> is the builtin that a socket raises when
  the broker refuses the connection.  These are three different class objects.
\<close>

datatype py_exception =
    RuntimeError
  | ConnectionError
  | ConnectionForced
  | ConnectionRefusedError
  | ReferenceError
  | AttributeError
  | ValueError
  | Empty
  | Full
  | ImproperlyConfigured
  | OtherException string

text \<open>
  The \<^verbatim>\<open>exc_value\<close> argument of \<^verbatim>\<open>__exit__\<close>.  The \<^verbatim>\<open>with\<close> statement passes
  the exception instance (or \<^verbatim>\<open>None\<close> when the block ended normally); a direct call of
  \<^verbatim>\<open>__exit__\<close> may pass anything, in particular a plain string.
\<close>


datatype py_value =
    PyNone
  | PyStr string
  | PyExcInstance py_exception string

datatype 'a outcome =
    Returned 'a
  | Raised py_exception
  | Blocked

text \<open>
  \<^verbatim>\<open>exc_value == "..."\<close> in the source.  Exception classes do not define
  \<^verbatim>\<open>__eq__\<close>, so an exception instance is equal only to itself and never to a
  string; \<^verbatim>\<open>None\<close> is not equal to a string either.
\<close>

definition py_eq_str :: "py_value \<Rightarrow> string \<Rightarrow> bool" where
  "py_eq_str v s = (case v of PyStr t \<Rightarrow> t = s | PyNone \<Rightarrow> False | PyExcInstance c m \<Rightarrow> False)"

subsection \<open>The standard library queue\<close>

text \<open>
  \<^verbatim>\<open>queue.Queue\<close> (\<^verbatim>\<open>six.moves.queue\<close>): \<^verbatim>\<open>maxsize\<close> and the deque of items.
  \<^verbatim>\<open>Queue()\<close> is \<^verbatim>\<open>Queue(maxsize=0)\<close>, and a queue whose \<^verbatim>\<open>maxsize\<close> is not
  positive is unbounded.  A timeout is a number; Python's \<^verbatim>\<open>False\<close> is the number 0.
\<close>

record 'a Queue =
  maxsize :: int
  items :: "'a list"

definition Queue_init :: "int \<Rightarrow> 'a Queue" where
  "Queue_init m = \<lparr>maxsize = m, items = []\<rparr>"

definition qsize :: "'a Queue \<Rightarrow> nat" where
  "qsize q = length (items q)"

definition Queue_empty :: "'a Queue \<Rightarrow> bool" where
  "Queue_empty q = (qsize q = 0)"

definition Queue_full :: "'a Queue \<Rightarrow> bool" where
  "Queue_full q = (0 < maxsize q \<and> maxsize q \<le> int (qsize q))"

text \<open>
  \<^verbatim>\<open>put(item, block=True, timeout=None)\<close>.  With no other thread to take an item, a
  wait without timeout on a full queue never ends and a wait with a timeout ends in
  \<^verbatim>\<open>Full\<close>.
\<close>

definition Queue_put :: "'a Queue \<Rightarrow> 'a \<Rightarrow> bool \<Rightarrow> int option \<Rightarrow> unit outcome \<times> 'a Queue" where
  "Queue_put q item block tmo =
     (if 0 < maxsize q then
        (if \<not> block then
           (if maxsize q \<le> int (qsize q) then (Raised Full, q)
            else (Returned (), q\<lparr>items := items q @ [item]\<rparr>))
         else case tmo of
           None \<Rightarrow>
             (if maxsize q \<le> int (qsize q) then (Blocked, q)
              else (Returned (), q\<lparr>items := items q @ [item]\<rparr>))
         | Some t \<Rightarrow>
             if t < 0 then (Raised ValueError, q)
             else if maxsize q \<le> int (qsize q) then (Raised Full, q)
             else (Returned (), q\<lparr>items := items q @ [item]\<rparr>))
      else (Returned (), q\<lparr>items := items q @ [item]\<rparr>))"

definition Queue_put_nowait :: "'a Queue \<Rightarrow> 'a \<Rightarrow> unit outcome \<times> 'a Queue" where
  "Queue_put_nowait q item = Queue_put q item False None"

text \<open>
  \<^verbatim>\<open>get(block=True, timeout=None)\<close>.  The branches are tested in the library's order:
  not blocking; no timeout (wait for an item); negative timeout; otherwise wait until
  the deadline \<^verbatim>\<open>time() + timeout\<close>, and raise \<^verbatim>\<open>Empty\<close> once it has passed.  With
  timeout 0 the deadline has passed at the first test, so an empty queue raises
  \<^verbatim>\<open>Empty\<close> at once.
\<close>

definition Queue_get :: "'a Queue \<Rightarrow> bool \<Rightarrow> int option \<Rightarrow> 'a outcome \<times> 'a Queue" where
  "Queue_get q block tmo =
     (if \<not> block then
        (case items q of [] \<Rightarrow> (Raised Empty, q)
         | x # xs \<Rightarrow> (Returned x, q\<lparr>items := xs\<rparr>))
      else case tmo of
        None \<Rightarrow>
          (case items q of [] \<Rightarrow> (Blocked, q)
           | x # xs \<Rightarrow> (Returned x, q\<lparr>items := xs\<rparr>))
      | Some t \<Rightarrow>
          if t < 0 then (Raised ValueError, q)
          else (case items q of [] \<Rightarrow> (Raised Empty, q)
                | x # xs \<Rightarrow> (Returned x, q\<lparr>items := xs\<rparr>)))"

definition Queue_get_nowait :: "'a Queue \<Rightarrow> 'a outcome \<times> 'a Queue" where
  "Queue_get_nowait q = Queue_get q False None"

subsection \<open>Sessions\<close>

text \<open>
  The transport (\<^verbatim>\<open>ClusterRpcProxy\<close>) is outside the module.  What the pool does to it
  is recorded: how many times it has tried to open a session, and on which sessions
  \<^verbatim>\<open>proxy.stop()\<close> has run, in order.  Opening a session can fail when the cluster is
  not reachable: \<open>refused\<close> lists the attempts that fail.  An \<^verbatim>\<open>RpcContext\<close> is
  identified by the number of attempts made before it.
\<close>

record transport =
  opened :: nat
  refused :: "nat list"
  stopped :: "nat list"

type_synonym RpcContext = nat

text \<open>
  \<^verbatim>\<open>RpcContext.__init__\<close>: a \<^verbatim>\<open>ClusterRpcProxy\<close> is made and started; when it cannot
  connect, its error leaves the constructor and there is no context.
\<close>

definition RpcContext_init :: "transport \<Rightarrow> RpcContext outcome \<times> transport" where
  "RpcContext_init w =
     (if opened w \<in> set (refused w) then
        (Raised ConnectionRefusedError, w\<lparr>opened := Suc (opened w)\<rparr>)
      else (Returned (opened w), w\<lparr>opened := Suc (opened w)\<rparr>))"

text \<open>The next \<open>n\<close> attempts to open a session succeed.\<close>

definition accepts :: "transport \<Rightarrow> nat \<Rightarrow> bool" where
  "accepts w n = (set (refused w) \<inter> {opened w ..< opened w + n} = {})"

text \<open>
  \<^verbatim>\<open>RpcContext.stop\<close>: \<^verbatim>\<open>self.proxy.stop(); self.proxy = None; self.rpc = None\<close>.
  On a context that was stopped before, \<^verbatim>\<open>self.proxy\<close> is \<^verbatim>\<open>None\<close> and the call
  raises \<^verbatim>\<open>AttributeError\<close>.
\<close>

definition RpcContext_stop :: "transport \<Rightarrow> RpcContext \<Rightarrow> unit outcome \<times> transport" where
  "RpcContext_stop w ctx =
     (if ctx \<in> set (stopped w) then (Raised AttributeError, w)
      else (Returned (), w\<lparr>stopped := stopped w @ [ctx]\<rparr>))"

subsection \<open>The pool\<close>

text \<open>
  \<^verbatim>\<open>queue = None\<close> stands both for the attribute that \<^verbatim>\<open>__init__\<close> never sets and
  for the \<^verbatim>\<open>None\<close> that \<^verbatim>\<open>stop\<close> stores: a method call on either raises
  \<^verbatim>\<open>AttributeError\<close>.
\<close>

type_synonym bag = "string \<rightharpoonup> string"

record ClusterRpcProxyPool =
  config :: "(string \<times> string) list"
  pool_size :: int
  context_data :: "bag option"
  timeout :: "int option"
  state :: string
  queue :: "RpcContext Queue option"

record settings =
  NAMEKO_CONFIG :: "(string \<times> string) list option"
  NAMEKO_POOL_SIZE :: "int option"
  NAMEKO_CONTEXT_DATA :: "bag option"
  NAMEKO_TIMEOUT :: "int option"
  NAMEKO_MULTI_POOL :: "string list option"
  NAMEKO_MULTI_CONTEXT_DATA :: "(string \<rightharpoonup> bag) option"

definition ClusterRpcProxyPool_init ::
  "settings \<Rightarrow> (string \<times> string) list \<Rightarrow> int option \<Rightarrow> bag option \<Rightarrow> int \<Rightarrow> ClusterRpcProxyPool" where
  "ClusterRpcProxyPool_init s cfg psize cdata tmo =
     \<lparr>config = cfg,
      pool_size = (case psize of
                     None \<Rightarrow> (case NAMEKO_POOL_SIZE s of None \<Rightarrow> 4 | Some n \<Rightarrow> n)
                   | Some n \<Rightarrow> n),
      context_data = (case cdata of None \<Rightarrow> NAMEKO_CONTEXT_DATA s | Some d \<Rightarrow> Some d),
      timeout = (if tmo \<le> 0 then NAMEKO_TIMEOUT s else Some tmo),
      state = ''NOT_STARTED'',
      queue = None\<rparr>"

text \<open>
  \<^verbatim>\<open>start\<close>: a new \<^verbatim>\<open>Queue()\<close>, then \<^verbatim>\<open>pool_size\<close> times a new context and a
  blocking \<^verbatim>\<open>put\<close>; \<^verbatim>\<open>xrange\<close> of a negative number is empty.  \<^verbatim>\<open>state\<close> is set
  after the loop, so not when a context could not be made.
\<close>

fun start_fill :: "nat \<Rightarrow> transport \<Rightarrow> RpcContext Queue \<Rightarrow> unit outcome \<times> transport \<times> RpcContext Queue" where
  "start_fill 0 w q = (Returned (), w, q)"
| "start_fill (Suc n) w q =
     (case RpcContext_init w of
        (Returned ctx, w') \<Rightarrow>
          (case Queue_put q ctx True None of
             (Returned u, q') \<Rightarrow> start_fill n w' q'
           | (Raised e, q') \<Rightarrow> (Raised e, w', q')
           | (Blocked, q') \<Rightarrow> (Blocked, w', q'))
      | (Raised e, w') \<Rightarrow> (Raised e, w', q)
      | (Blocked, w') \<Rightarrow> (Blocked, w', q))"

definition start :: "transport \<Rightarrow> ClusterRpcProxyPool \<Rightarrow> unit outcome \<times> transport \<times> ClusterRpcProxyPool" where
  "start w p =
     (case start_fill (nat (pool_size p)) w (Queue_init 0) of
        (Returned u, w', q) \<Rightarrow> (Returned (), w', p\<lparr>state := ''STARTED'', queue := Some q\<rparr>)
      | (Raised e, w', q) \<Rightarrow> (Raised e, w', p\<lparr>queue := Some q\<rparr>)
      | (Blocked, w', q) \<Rightarrow> (Blocked, w', p\<lparr>queue := Some q\<rparr>))"

definition is_started :: "ClusterRpcProxyPool \<Rightarrow> bool" where
  "is_started p = (state p \<noteq> ''NOT_STARTED'')"

text \<open>
  \<^verbatim>\<open>next(timeout=False)\<close> is \<^verbatim>\<open>self.queue.get(timeout=False)\<close>: the argument is not
  used, the queue is asked with \<^verbatim>\<open>block=True\<close> and the timeout \<^verbatim>\<open>False\<close>, that is 0.
\<close>

definition pool_next :: "ClusterRpcProxyPool \<Rightarrow> int option \<Rightarrow> RpcContext outcome \<times> ClusterRpcProxyPool" where
  "pool_next p tmo =
     (case queue p of
        None \<Rightarrow> (Raised AttributeError, p)
      | Some q \<Rightarrow> (case Queue_get q True (Some 0) of (r, q') \<Rightarrow> (r, p\<lparr>queue := Some q'\<rparr>)))"

definition put_back :: "ClusterRpcProxyPool \<Rightarrow> RpcContext \<Rightarrow> unit outcome \<times> ClusterRpcProxyPool" where
  "put_back p ctx =
     (case queue p of
        None \<Rightarrow> (Raised AttributeError, p)
      | Some q \<Rightarrow> (case Queue_put q ctx True None of (r, q') \<Rightarrow> (r, p\<lparr>queue := Some q'\<rparr>)))"

text \<open>
  \<^verbatim>\<open>_clear\<close>: while the queue is not empty, \<^verbatim>\<open>self.next()\<close>; the session taken
  is dropped, nothing is called on it.  The result is the count that is logged.
\<close>

function clear :: "ClusterRpcProxyPool \<Rightarrow> nat \<Rightarrow> nat outcome \<times> ClusterRpcProxyPool" where
  "clear p count =
     (case queue p of
        None \<Rightarrow> (Raised AttributeError, p)
      | Some q \<Rightarrow>
          if Queue_empty q = False then
            (case pool_next p None of
               (Returned ctx, p') \<Rightarrow> clear p' (count + 1)
             | (Raised e, p') \<Rightarrow> (Raised e, p')
             | (Blocked, p') \<Rightarrow> (Blocked, p'))
          else (Returned count, p))"
  by pat_completeness auto
termination
  by (relation "measure (\<lambda>(p, count). case queue p of None \<Rightarrow> 0 | Some q \<Rightarrow> qsize q)")
     (auto simp: pool_next_def Queue_get_def Queue_empty_def qsize_def split: list.splits)

declare clear.simps [simp del]

text \<open>
  \<^verbatim>\<open>_reload(num_of_worker=0)\<close>: \<^verbatim>\<open>num_of_worker\<close> times (\<^verbatim>\<open>pool_size\<close> times when
  the argument is not positive), a new context is made and \<^verbatim>\<open>put_nowait\<close> unless the
  queue says it is full.
\<close>

fun reload_loop ::
  "nat \<Rightarrow> transport \<Rightarrow> ClusterRpcProxyPool \<Rightarrow> nat \<Rightarrow> nat outcome \<times> transport \<times> ClusterRpcProxyPool" where
  "reload_loop 0 w p count = (Returned count, w, p)"
| "reload_loop (Suc n) w p count =
     (case queue p of
        None \<Rightarrow> (Raised AttributeError, w, p)
      | Some q \<Rightarrow>
          if Queue_full q = False then
            (case RpcContext_init w of
               (Returned ctx, w') \<Rightarrow>
                 (case Queue_put_nowait q ctx of
                    (Returned u, q') \<Rightarrow> reload_loop n w' (p\<lparr>queue := Some q'\<rparr>) (count + 1)
                  | (Raised e, q') \<Rightarrow> (Raised e, w', p\<lparr>queue := Some q'\<rparr>)
                  | (Blocked, q') \<Rightarrow> (Blocked, w', p\<lparr>queue := Some q'\<rparr>))
             | (Raised e, w') \<Rightarrow> (Raised e, w', p)
             | (Blocked, w') \<Rightarrow> (Blocked, w', p))
          else reload_loop n w p count)"

definition reload ::
  "transport \<Rightarrow> ClusterRpcProxyPool \<Rightarrow> int \<Rightarrow> nat outcome \<times> transport \<times> ClusterRpcProxyPool" where
  "reload w p num_of_worker =
     reload_loop (nat (if num_of_worker \<le> 0 then pool_size p else num_of_worker)) w p 0"

text \<open>
  \<^verbatim>\<open>stop\<close>: \<^verbatim>\<open>get_nowait\<close> and \<^verbatim>\<open>ctx.stop()\<close> until \<^verbatim>\<open>Empty\<close> is raised, then
  the deque is cleared and \<^verbatim>\<open>self.queue = None\<close>.  \<^verbatim>\<open>state\<close> is not assigned.
\<close>

function stop_loop ::
  "transport \<Rightarrow> ClusterRpcProxyPool \<Rightarrow> unit outcome \<times> transport \<times> ClusterRpcProxyPool" where
  "stop_loop w p =
     (case queue p of
        None \<Rightarrow> (Raised AttributeError, w, p)
      | Some q \<Rightarrow>
          (case Queue_get_nowait q of
             (Returned ctx, q') \<Rightarrow>
               (case RpcContext_stop w ctx of
                  (Returned u, w') \<Rightarrow> stop_loop w' (p\<lparr>queue := Some q'\<rparr>)
                | (Raised e, w') \<Rightarrow>
                    if e = Empty then (Returned (), w', p\<lparr>queue := Some q'\<rparr>)
                    else (Raised e, w', p\<lparr>queue := Some q'\<rparr>)
                | (Blocked, w') \<Rightarrow> (Blocked, w', p\<lparr>queue := Some q'\<rparr>))
           | (Raised e, q') \<Rightarrow>
               if e = Empty then (Returned (), w, p\<lparr>queue := Some q'\<rparr>)
               else (Raised e, w, p\<lparr>queue := Some q'\<rparr>)
           | (Blocked, q') \<Rightarrow> (Blocked, w, p\<lparr>queue := Some q'\<rparr>)))"
  by pat_completeness auto
termination
  by (relation "measure (\<lambda>(w, p). case queue p of None \<Rightarrow> 0 | Some q \<Rightarrow> qsize q)")
     (auto simp: Queue_get_nowait_def Queue_get_def qsize_def split: list.splits)

declare stop_loop.simps [simp del]

definition stop ::
  "transport \<Rightarrow> ClusterRpcProxyPool \<Rightarrow> unit outcome \<times> transport \<times> ClusterRpcProxyPool" where
  "stop w p =
     (case stop_loop w p of
        (Returned u, w', p') \<Rightarrow>
          (case queue p' of
             None \<Rightarrow> (Raised AttributeError, w', p')
           | Some q \<Rightarrow> (Returned (), w', p'\<lparr>queue := None\<rparr>))
      | (Raised e, w', p') \<Rightarrow> (Raised e, w', p')
      | (Blocked, w', p') \<Rightarrow> (Blocked, w', p'))"

subsection \<open>Leaving the scope of a session\<close>

text \<open>
  \<^verbatim>\<open>RpcContext.__exit__(exc_type, exc_value, traceback)\<close>.  \<^verbatim>\<open>exc_type\<close> is
  \<^verbatim>\<open>None\<close> when the block ended normally.  The context holds a weak proxy of its
  pool: the pool argument is \<^verbatim>\<open>None\<close> when the pool object is gone, and then the first
  use of \<^verbatim>\<open>self.pool\<close> raises \<^verbatim>\<open>ReferenceError\<close>, which the handler answers by
  stopping the context.  No other exception is caught.
\<close>

definition stale_consumer :: "py_exception option \<Rightarrow> py_value \<Rightarrow> bool" where
  "stale_consumer exc_type exc_value =
     (exc_type = Some RuntimeError \<and>
      (py_eq_str exc_value ''This consumer has been stopped, and can no longer be used'' \<or>
       py_eq_str exc_value ''This consumer has been disconnected, and can no longer be used''))"

definition RpcContext_exit ::
  "transport \<Rightarrow> ClusterRpcProxyPool option \<Rightarrow> RpcContext \<Rightarrow> py_exception option \<Rightarrow> py_value
     \<Rightarrow> unit outcome \<times> transport \<times> ClusterRpcProxyPool option" where
  "RpcContext_exit w pool_ref ctx exc_type exc_value =
     (case pool_ref of
        None \<Rightarrow> (case RpcContext_stop w ctx of (r, w') \<Rightarrow> (r, w', None))
      | Some p \<Rightarrow>
          if stale_consumer exc_type exc_value then
            (case clear p 0 of
               (Returned n, p1) \<Rightarrow>
                 (case reload w p1 0 of
                    (Returned m, w2, p2) \<Rightarrow>
                      (case RpcContext_stop w2 ctx of (r, w3) \<Rightarrow> (r, w3, Some p2))
                  | (Raised e, w2, p2) \<Rightarrow> (Raised e, w2, Some p2)
                  | (Blocked, w2, p2) \<Rightarrow> (Blocked, w2, Some p2))
             | (Raised e, p1) \<Rightarrow> (Raised e, w, Some p1)
             | (Blocked, p1) \<Rightarrow> (Blocked, w, Some p1))
          else if exc_type = Some ConnectionError then
            (case reload w p 1 of
               (Returned m, w2, p2) \<Rightarrow>
                 (case RpcContext_stop w2 ctx of (r, w3) \<Rightarrow> (r, w3, Some p2))
             | (Raised e, w2, p2) \<Rightarrow> (Raised e, w2, Some p2)
             | (Blocked, w2, p2) \<Rightarrow> (Blocked, w2, Some p2))
          else (case put_back p ctx of (r, p') \<Rightarrow> (r, w, Some p')))"

subsection \<open>The registry\<close>

text \<open>
  The module globals: \<^verbatim>\<open>pool\<close> (\<^verbatim>\<open>None\<close>, one pool, or a dict from names to
  pools, kept in insertion order), the lock (held or not), Django's settings, and the
  transport.  The dict of a name in \<^verbatim>\<open>NAMEKO_MULTI_CONTEXT_DATA\<close> is updated in place by
  \<^verbatim>\<open>get_pool\<close>, so the settings are part of the state.
\<close>

datatype py_pool = NonePool | OnePool ClusterRpcProxyPool | DictPool "(string \<times> ClusterRpcProxyPool) list"

record module_state =
  pool :: py_pool
  create_pool_lock :: bool
  django_settings :: settings
  world :: transport





definition destroy_pool :: "module_state \<Rightarrow> module_state" where
  "destroy_pool g = g\<lparr>pool := NonePool\<rparr>"

subsection \<open>Concrete states\<close>

text \<open>
  A transport on which nothing has been opened and which refuses nothing, settings that give only the broker
  address, and a pool made by \<^verbatim>\<open>ClusterRpcProxyPool(config, pool_size=n)\<close>.
\<close>

definition transport0 :: transport where
  "transport0 = \<lparr>opened = 0, refused = [], stopped = []\<rparr>"

definition settings0 :: settings where
  "settings0 =
     \<lparr>NAMEKO_CONFIG = Some [(''AMQP_URL'', ''amqp://'')],
      NAMEKO_POOL_SIZE = None,
      NAMEKO_CONTEXT_DATA = None,
      NAMEKO_TIMEOUT = None,
      NAMEKO_MULTI_POOL = None,
      NAMEKO_MULTI_CONTEXT_DATA = None\<rparr>"

definition pool_of_size :: "int \<Rightarrow> ClusterRpcProxyPool" where
  "pool_of_size n = ClusterRpcProxyPool_init settings0 [(''AMQP_URL'', ''amqp://'')] (Some n) None 0"

definition started_pool :: "int \<Rightarrow> ClusterRpcProxyPool" where
  "started_pool n = snd (snd (start transport0 (pool_of_size n)))"

definition started_transport :: "int \<Rightarrow> transport" where
  "started_transport n = fst (snd (start transport0 (pool_of_size n)))"



subsection \<open>Notions used to state the properties\<close>

text \<open>The number of sessions in the buffer (0 when there is no buffer).\<close>

definition buffer_size :: "ClusterRpcProxyPool \<Rightarrow> nat" where
  "buffer_size p = (case queue p of None \<Rightarrow> 0 | Some q \<Rightarrow> qsize q)"






subsection \<open>Scoped use of a pool\<close>

text \<open>
  A client calls \<^verbatim>\<open>start\<close>, \<^verbatim>\<open>next\<close> and \<^verbatim>\<open>stop\<close> on the pool and leaves the scope
  of a session it holds; \<^verbatim>\<open>__exit__\<close> is then called once on that session.  The state
  is the transport, the pool and the sessions the clients hold.  A call that raises leaves
  what it has done so far.
\<close>

datatype pool_op = Start | Next | Exit RpcContext "py_exception option" py_value | Stop

type_synonym client_state = "transport \<times> ClusterRpcProxyPool \<times> RpcContext list"

fun step :: "pool_op \<Rightarrow> client_state \<Rightarrow> client_state" where
  "step Start (w, p, held) = (case start w p of (r, w', p') \<Rightarrow> (w', p', held))"
| "step Next (w, p, held) =
     (case pool_next p None of
        (Returned ctx, p') \<Rightarrow> (w, p', ctx # held)
      | (Raised e, p') \<Rightarrow> (w, p', held)
      | (Blocked, p') \<Rightarrow> (w, p', held))"
| "step (Exit ctx exc_type exc_value) (w, p, held) =
     (if ctx \<in> set held then
        (case RpcContext_exit w (Some p) ctx exc_type exc_value of
           (r, w', Some p') \<Rightarrow> (w', p', remove1 ctx held)
         | (r, w', None) \<Rightarrow> (w', p, remove1 ctx held))
      else (w, p, held))"
| "step Stop (w, p, held) = (case stop w p of (r, w', p') \<Rightarrow> (w', p', held))"

fun run :: "pool_op list \<Rightarrow> client_state \<Rightarrow> client_state" where
  "run [] s = s"
| "run (a # ops) s = run ops (step a s)"

text \<open>
  The sessions of the buffer, and the condition that holds during scoped use: the buffer
  has no bound, the sessions in the buffer and in the clients' hands are all different,
  none of them has been stopped, all sessions were opened by the transport, and the
  transport refuses nothing.
\<close>

definition buffered :: "ClusterRpcProxyPool \<Rightarrow> RpcContext list" where
  "buffered p = (case queue p of None \<Rightarrow> [] | Some q \<Rightarrow> items q)"

definition unbounded :: "ClusterRpcProxyPool \<Rightarrow> bool" where
  "unbounded p = (case queue p of None \<Rightarrow> True | Some q \<Rightarrow> maxsize q \<le> 0)"

definition scoped_ok :: "client_state \<Rightarrow> bool" where
  "scoped_ok s =
     (case s of (w, p, held) \<Rightarrow>
        unbounded p \<and> distinct (buffered p @ held) \<and>
        set (buffered p @ held) \<inter> set (stopped w) = {} \<and>
        set (buffered p @ held) \<subseteq> {..<opened w} \<and>
        set (stopped w) \<subseteq> {..<opened w} \<and>
        refused w = [])"

section \<open>Properties\<close>

subsection \<open>What the operations compute\<close>

text \<open>
  The queue made by \<^verbatim>\<open>start\<close> has \<^verbatim>\<open>maxsize\<close> 0, so \<^verbatim>\<open>put\<close> never waits and
  \<^verbatim>\<open>full()\<close> is never true.  The loops then have closed forms.
\<close>

lemma accepts_all: "refused w = [] \<Longrightarrow> accepts w n"
  by (simp add: accepts_def)

lemma accepts_Suc:
  assumes "accepts w (Suc n)"
  shows "opened w \<notin> set (refused w)" and "accepts (w\<lparr>opened := Suc (opened w)\<rparr>) n"
  using assms by (auto simp: accepts_def)

lemma start_fill_unbounded:
  "maxsize q \<le> 0 \<Longrightarrow> accepts w n \<Longrightarrow>
   start_fill n w q =
     (Returned (), w\<lparr>opened := opened w + n\<rparr>, q\<lparr>items := items q @ [opened w ..< opened w + n]\<rparr>)"
proof (induction n arbitrary: w q)
  case 0
  then show ?case by simp
next
  case (Suc n)
  have "[opened w ..< opened w + Suc n] = opened w # [Suc (opened w) ..< Suc (opened w) + n]"
    by (simp add: upt_conv_Cons)
  with Suc.prems(1) accepts_Suc[OF Suc.prems(2)]
    Suc.IH[of "q\<lparr>items := items q @ [opened w]\<rparr>" "w\<lparr>opened := Suc (opened w)\<rparr>"]
  show ?case
    by (simp add: RpcContext_init_def Queue_put_def)
qed

lemma start_eq:
  "accepts w (nat (pool_size p)) \<Longrightarrow>
   start w p =
     (Returned (), w\<lparr>opened := opened w + nat (pool_size p)\<rparr>,
      p\<lparr>state := ''STARTED'',
        queue := Some \<lparr>maxsize = 0, items = [opened w ..< opened w + nat (pool_size p)]\<rparr>\<rparr>)"
  by (simp add: start_def start_fill_unbounded Queue_init_def)

lemma pool_next_eq:
  "pool_next p tmo =
     (case queue p of
        None \<Rightarrow> (Raised AttributeError, p)
      | Some q \<Rightarrow>
          (case items q of
             [] \<Rightarrow> (Raised Empty, p)
           | ctx # rest \<Rightarrow> (Returned ctx, p\<lparr>queue := Some (q\<lparr>items := rest\<rparr>)\<rparr>)))"
  by (simp add: pool_next_def Queue_get_def split: option.splits list.splits)

lemma clear_eq:
  "queue p = Some q \<Longrightarrow>
   clear p n = (Returned (n + length (items q)), p\<lparr>queue := Some (q\<lparr>items := []\<rparr>)\<rparr>)"
proof (induction p n arbitrary: q rule: clear.induct)
  case (1 p n)
  show ?case
  proof (cases "items q")
    case Nil
    with "1.prems" show ?thesis
      by (subst clear.simps) (simp add: Queue_empty_def qsize_def)
  next
    case (Cons c cs)
    let ?p' = "p\<lparr>queue := Some (q\<lparr>items := cs\<rparr>)\<rparr>"
    from "1.prems" Cons have nx: "pool_next p None = (Returned c, ?p')"
      by (simp add: pool_next_eq)
    from "1.prems" Cons have ne: "Queue_empty q = False"
      by (simp add: Queue_empty_def qsize_def)
    have "clear ?p' (n + 1) = (Returned (n + 1 + length cs), ?p'\<lparr>queue := Some (q\<lparr>items := cs, items := []\<rparr>)\<rparr>)"
      using "1.IH"[OF "1.prems" ne nx[symmetric] refl, of "q\<lparr>items := cs\<rparr>"] by simp
    with "1.prems" Cons nx ne show ?thesis
      by (subst clear.simps) simp
  qed
qed

lemma reload_loop_unbounded:
  "queue p = Some q \<Longrightarrow> maxsize q \<le> 0 \<Longrightarrow> accepts w n \<Longrightarrow>
   reload_loop n w p k =
     (Returned (k + n), w\<lparr>opened := opened w + n\<rparr>,
      p\<lparr>queue := Some (q\<lparr>items := items q @ [opened w ..< opened w + n]\<rparr>)\<rparr>)"
proof (induction n arbitrary: w p q k)
  case 0
  then show ?case by simp
next
  case (Suc n)
  have "[opened w ..< opened w + Suc n] = opened w # [Suc (opened w) ..< Suc (opened w) + n]"
    by (simp add: upt_conv_Cons)
  with Suc.prems(1,2) accepts_Suc[OF Suc.prems(3)]
    Suc.IH[of "p\<lparr>queue := Some (q\<lparr>items := items q @ [opened w]\<rparr>)\<rparr>"
      "q\<lparr>items := items q @ [opened w]\<rparr>" "w\<lparr>opened := Suc (opened w)\<rparr>"]
  show ?case
    by (simp add: RpcContext_init_def Queue_put_nowait_def Queue_put_def Queue_full_def)
qed

lemma stop_loop_eq:
  "queue p = Some q \<Longrightarrow> distinct (items q) \<Longrightarrow> set (items q) \<inter> set (stopped w) = {} \<Longrightarrow>
   stop_loop w p =
     (Returned (), w\<lparr>stopped := stopped w @ items q\<rparr>, p\<lparr>queue := Some (q\<lparr>items := []\<rparr>)\<rparr>)"
proof (induction "items q" arbitrary: w p q)
  case Nil
  then show ?case
    by (subst stop_loop.simps) (simp add: Queue_get_nowait_def Queue_get_def)
next
  case (Cons c cs)
  let ?q' = "q\<lparr>items := cs\<rparr>"
  let ?p' = "p\<lparr>queue := Some ?q'\<rparr>"
  let ?w' = "w\<lparr>stopped := stopped w @ [c]\<rparr>"
  from Cons.hyps(2) Cons.prems have c: "c \<notin> set (stopped w)" "c \<notin> set cs" "distinct cs"
    "set cs \<inter> set (stopped w) = {}"
    by (auto simp: Cons.hyps(2)[symmetric])
  have "stop_loop ?w' ?p' =
     (Returned (), ?w'\<lparr>stopped := stopped ?w' @ items ?q'\<rparr>, ?p'\<lparr>queue := Some (?q'\<lparr>items := []\<rparr>)\<rparr>)"
    using c by (intro Cons.hyps(1)) auto
  with Cons.prems(1) c Cons.hyps(2)[symmetric] show ?case
    by (subst stop_loop.simps) (simp add: Queue_get_nowait_def Queue_get_def RpcContext_stop_def)
qed

lemma stop_loop_state: "state (snd (snd (stop_loop w p))) = state p"
proof (induction w p rule: stop_loop.induct)
  case (1 w p)
  show ?case
    by (subst stop_loop.simps)
       (auto split: option.splits prod.splits outcome.splits simp: "1.IH")
qed

lemma stop_state: "state (snd (snd (stop w p))) = state p"
proof -
  obtain r w' p' where sl: "stop_loop w p = (r, w', p')"
    by (cases "stop_loop w p") auto
  with stop_loop_state[of w p] have "state p' = state p" by simp
  with sl show ?thesis
    by (auto simp: stop_def split: outcome.splits option.splits)
qed

lemma stop_eq:
  assumes "queue p = Some q" and "distinct (items q)" and "set (items q) \<inter> set (stopped w) = {}"
  shows "stop w p = (Returned (), w\<lparr>stopped := stopped w @ items q\<rparr>, p\<lparr>queue := None\<rparr>)"
  using stop_loop_eq[OF assms] by (simp add: stop_def)

lemma put_back_unbounded:
  "queue p = Some q \<Longrightarrow> maxsize q \<le> 0 \<Longrightarrow>
   put_back p ctx = (Returned (), p\<lparr>queue := Some (q\<lparr>items := items q @ [ctx]\<rparr>)\<rparr>)"
  by (simp add: put_back_def Queue_put_def)

lemma reload_unbounded:
  "queue p = Some q \<Longrightarrow> maxsize q \<le> 0 \<Longrightarrow>
   accepts w (nat (if k \<le> 0 then pool_size p else k)) \<Longrightarrow>
   reload w p k =
     (Returned (nat (if k \<le> 0 then pool_size p else k)),
      w\<lparr>opened := opened w + nat (if k \<le> 0 then pool_size p else k)\<rparr>,
      p\<lparr>queue := Some (q\<lparr>items := items q
             @ [opened w ..< opened w + nat (if k \<le> 0 then pool_size p else k)]\<rparr>)\<rparr>)"
  by (simp add: reload_def reload_loop_unbounded)

lemma pool_next_Returned:
  assumes "queue p = Some q" and "pool_next p tmo = (Returned ctx, p1)"
  shows "items q = ctx # tl (items q)" and "p1 = p\<lparr>queue := Some (q\<lparr>items := tl (items q)\<rparr>)\<rparr>"
  using assms by (auto simp: pool_next_eq split: list.splits)

text \<open>
  An exception instance is never equal to a string, so with the value that the
  \<^verbatim>\<open>with\<close> statement passes the first branch of \<^verbatim>\<open>__exit__\<close> is not taken.
\<close>

lemma not_stale_consumer_instance: "\<not> stale_consumer exc_type (PyExcInstance c msg)"
  by (simp add: stale_consumer_def py_eq_str_def)

subsection \<open>The concrete states\<close>

lemma pool_of_size_fields:
  "pool_size (pool_of_size n) = n" "queue (pool_of_size n) = None"
  "state (pool_of_size n) = ''NOT_STARTED''"
  by (simp_all add: pool_of_size_def ClusterRpcProxyPool_init_def)

lemma accepts_transport0: "accepts transport0 n"
  by (simp add: accepts_def transport0_def)

lemma started_pool_1:
  "started_pool 1 =
     (pool_of_size 1)\<lparr>state := ''STARTED'', queue := Some \<lparr>maxsize = 0, items = [0]\<rparr>\<rparr>"
  by (simp add: started_pool_def start_eq accepts_transport0)
     (simp add: transport0_def pool_of_size_def ClusterRpcProxyPool_init_def upt_conv_Cons)

lemma started_transport_1: "started_transport 1 = \<lparr>opened = 1, refused = [], stopped = []\<rparr>"
  by (simp add: started_transport_def start_eq accepts_transport0)
     (simp add: transport0_def pool_of_size_def ClusterRpcProxyPool_init_def)

lemma started_pool_2:
  "started_pool 2 =
     (pool_of_size 2)\<lparr>state := ''STARTED'', queue := Some \<lparr>maxsize = 0, items = [0, 1]\<rparr>\<rparr>"
  by (simp add: started_pool_def start_eq accepts_transport0)
     (simp add: transport0_def pool_of_size_def ClusterRpcProxyPool_init_def upt_conv_Cons)

lemma started_transport_2: "started_transport 2 = \<lparr>opened = 2, refused = [], stopped = []\<rparr>"
  by (simp add: started_transport_def start_eq accepts_transport0)
     (simp add: transport0_def pool_of_size_def ClusterRpcProxyPool_init_def)

lemma next_of_started_pool_2:
  "pool_next (started_pool 2) None =
     (Returned 0, (started_pool 2)\<lparr>queue := Some \<lparr>maxsize = 0, items = [1]\<rparr>\<rparr>)"
  by (simp add: pool_next_eq started_pool_2)



subsection \<open>The registry\<close>













subsection \<open>Scoped use keeps the buffer well formed\<close>

text \<open>
  Every operation keeps \<open>scoped_ok\<close>, so it holds in every state that a sequence of
  operations reaches from a new pool.  The hypotheses on the buffer in the claims below
  follow from it.
\<close>

lemma scoped_ok_start:
  assumes "scoped_ok (w, p, held)"
  shows "scoped_ok (step Start (w, p, held))"
  using assms
  by (auto simp: scoped_ok_def start_eq accepts_all buffered_def unbounded_def split: option.splits)

lemma scoped_ok_next:
  assumes "scoped_ok (w, p, held)"
  shows "scoped_ok (step Next (w, p, held))"
  using assms
  by (auto simp: scoped_ok_def pool_next_eq buffered_def unbounded_def
           split: option.splits list.splits)

lemma scoped_ok_stop:
  assumes "scoped_ok (w, p, held)"
  shows "scoped_ok (step Stop (w, p, held))"
proof (cases "queue p")
  case None
  then have "stop w p = (Raised AttributeError, w, p)"
    by (simp add: stop_def stop_loop.simps)
  with assms show ?thesis by simp
next
  case (Some q)
  from assms Some have "distinct (items q)" "set (items q) \<inter> set (stopped w) = {}"
    by (auto simp: scoped_ok_def buffered_def)
  from stop_eq[OF Some this] assms Some show ?thesis
    by (auto simp: scoped_ok_def buffered_def unbounded_def)
qed

lemma scoped_ok_exit:
  assumes "scoped_ok (w, p, held)"
  shows "scoped_ok (step (Exit ctx exc_type exc_value) (w, p, held))"
proof (cases "ctx \<in> set held")
  case False
  with assms show ?thesis by simp
next
  case True
  from assms True have ctx: "ctx \<notin> set (stopped w)" "ctx < opened w" "ctx \<notin> set (buffered p)"
    "ctx \<notin> set (remove1 ctx held)"
    by (auto simp: scoped_ok_def)
  from assms have sub: "distinct (buffered p @ remove1 ctx held)"
    "set (remove1 ctx held) \<subseteq> set held"
    by (auto simp: scoped_ok_def set_remove1_subset distinct_remove1 dest: notin_set_remove1)
  show ?thesis
  proof (cases "queue p")
    case None
    have "clear p 0 = (Raised AttributeError, p)"
      using None by (simp add: clear.simps)
    moreover have "reload w p 1 = (Raised AttributeError, w, p)"
      using None by (simp add: reload_def)
    moreover have "put_back p ctx = (Raised AttributeError, p)"
      using None by (simp add: put_back_def)
    ultimately have "step (Exit ctx exc_type exc_value) (w, p, held) = (w, p, remove1 ctx held)"
      using True by (simp add: RpcContext_exit_def)
    with assms sub show ?thesis
      by (auto simp: scoped_ok_def)
  next
    case (Some q)
    from assms Some have mx: "maxsize q \<le> 0"
      by (simp add: scoped_ok_def unbounded_def)
    from assms have acc: "accepts w n" for n
      by (simp add: scoped_ok_def accepts_all)
    let ?n = "nat (pool_size p)"
    let ?p0 = "p\<lparr>queue := Some (q\<lparr>items := []\<rparr>)\<rparr>"
    have cl: "clear p 0 = (Returned (length (items q)), ?p0)"
      using clear_eq[OF Some, of 0] by simp
    have rl0: "reload w ?p0 0 =
        (Returned ?n, w\<lparr>opened := opened w + ?n\<rparr>,
         p\<lparr>queue := Some (q\<lparr>items := [opened w ..< opened w + ?n]\<rparr>)\<rparr>)"
      using reload_unbounded[where p="?p0" and q="q\<lparr>items := []\<rparr>" and w=w and k=0] mx acc by simp
    have rl1: "reload w p 1 =
        (Returned 1, w\<lparr>opened := opened w + 1\<rparr>,
         p\<lparr>queue := Some (q\<lparr>items := items q @ [opened w]\<rparr>)\<rparr>)"
      using reload_unbounded[OF Some mx, where w=w and k=1] acc by simp
    have pb: "put_back p ctx = (Returned (), p\<lparr>queue := Some (q\<lparr>items := items q @ [ctx]\<rparr>)\<rparr>)"
      by (rule put_back_unbounded[OF Some mx])
    consider (stale) "stale_consumer exc_type exc_value"
      | (conn) "\<not> stale_consumer exc_type exc_value" "exc_type = Some ConnectionError"
      | (other) "\<not> stale_consumer exc_type exc_value" "exc_type \<noteq> Some ConnectionError"
      by blast
    then show ?thesis
    proof cases
      case stale
      with True cl rl0 ctx(1)
      have "step (Exit ctx exc_type exc_value) (w, p, held) =
          (w\<lparr>opened := opened w + ?n, stopped := stopped w @ [ctx]\<rparr>,
           p\<lparr>queue := Some (q\<lparr>items := [opened w ..< opened w + ?n]\<rparr>)\<rparr>, remove1 ctx held)"
        by (simp add: RpcContext_exit_def RpcContext_stop_def)
      with assms Some ctx sub mx show ?thesis
        by (auto simp: scoped_ok_def buffered_def unbounded_def dest: notin_set_remove1)
    next
      case conn
      with True rl1 ctx(1)
      have "step (Exit ctx exc_type exc_value) (w, p, held) =
          (w\<lparr>opened := opened w + 1, stopped := stopped w @ [ctx]\<rparr>,
           p\<lparr>queue := Some (q\<lparr>items := items q @ [opened w]\<rparr>)\<rparr>, remove1 ctx held)"
        by (simp add: RpcContext_exit_def RpcContext_stop_def)
      with assms Some ctx sub mx show ?thesis
        by (auto simp: scoped_ok_def buffered_def unbounded_def dest: notin_set_remove1)
    next
      case other
      with True pb
      have "step (Exit ctx exc_type exc_value) (w, p, held) =
          (w, p\<lparr>queue := Some (q\<lparr>items := items q @ [ctx]\<rparr>)\<rparr>, remove1 ctx held)"
        by (simp add: RpcContext_exit_def)
      with assms Some ctx sub mx show ?thesis
        by (auto simp: scoped_ok_def buffered_def unbounded_def dest: notin_set_remove1)
    qed
  qed
qed

lemma scoped_ok_step: "scoped_ok s \<Longrightarrow> scoped_ok (step a s)"
proof -
  assume ok: "scoped_ok s"
  obtain w p held where s: "s = (w, p, held)" by (cases s) auto
  show ?thesis
  proof (cases a)
    case Start
    with ok s scoped_ok_start show ?thesis by simp
  next
    case Next
    with ok s scoped_ok_next show ?thesis by simp
  next
    case (Exit c t v)
    with ok s scoped_ok_exit show ?thesis by simp
  next
    case Stop
    with ok s scoped_ok_stop show ?thesis by simp
  qed
qed

lemma scoped_ok_run: "scoped_ok s \<Longrightarrow> scoped_ok (run ops s)"
  by (induction ops arbitrary: s) (simp_all add: scoped_ok_step)

lemma scoped_ok_initial: "scoped_ok (transport0, pool_of_size n, [])"
  by (simp add: scoped_ok_def buffered_def unbounded_def pool_of_size_fields transport0_def)

lemma scoped_ok_accepts:
  assumes "scoped_ok (w, p, held)"
  shows "accepts w n"
  using assms by (simp add: scoped_ok_def accepts_all)

lemma scoped_ok_buffer:
  assumes "scoped_ok (w, p, held)" and "queue p = Some q"
  shows "maxsize q \<le> 0" and "distinct (items q)"
    and "set (items q) \<inter> set (stopped w) = {}" and "set (items q) \<subseteq> {..<opened w}"
  using assms by (auto simp: scoped_ok_def buffered_def unbounded_def)

lemma scoped_ok_held:
  assumes "scoped_ok (w, p, held)" and "ctx \<in> set held"
  shows "ctx \<notin> set (stopped w)"
  using assms by (auto simp: scoped_ok_def)

section \<open>The claims\<close>

subsection \<open>C1: a scope that ends with the stale-consumer error\<close>

text \<open>
  C1 says that a scope ending with a \<^verbatim>\<open>RuntimeError\<close> carrying one of the two
  stale-consumer messages drains the buffer, destroying every buffered session, refills it
  with fresh sessions and destroys the session of the scope.  The code does not do this.
  A pool of size 2 is started and session 0 is taken, session 1 stays in the buffer.
  When the scope ends with the exception instance, as the \<^verbatim>\<open>with\<close> statement passes
  it, the comparison of \<^verbatim>\<open>exc_value\<close> with the message strings is false and session
  0 is put back: nothing is drained, opened or stopped.  When \<^verbatim>\<open>__exit__\<close> is called
  with the bare message string, the buffer is refilled with sessions 2 and 3 and session 0
  is stopped, but session 1, which was in the buffer, is dropped without being stopped.
\<close>

theorem stale_consumer_scope_on_started_pool:
  "pool_next (started_pool 2) None =
     (Returned 0, (started_pool 2)\<lparr>queue := Some \<lparr>maxsize = 0, items = [1]\<rparr>\<rparr>) \<and>
   RpcContext_exit (started_transport 2)
       (Some ((started_pool 2)\<lparr>queue := Some \<lparr>maxsize = 0, items = [1]\<rparr>\<rparr>)) 0
       (Some RuntimeError)
       (PyExcInstance RuntimeError ''This consumer has been stopped, and can no longer be used'') =
     (Returned (), \<lparr>opened = 2, refused = [], stopped = []\<rparr>,
      Some ((started_pool 2)\<lparr>queue := Some \<lparr>maxsize = 0, items = [1, 0]\<rparr>\<rparr>)) \<and>
   RpcContext_exit (started_transport 2)
       (Some ((started_pool 2)\<lparr>queue := Some \<lparr>maxsize = 0, items = [1]\<rparr>\<rparr>)) 0
       (Some RuntimeError)
       (PyStr ''This consumer has been stopped, and can no longer be used'') =
     (Returned (), \<lparr>opened = 4, refused = [], stopped = [0]\<rparr>,
      Some ((started_pool 2)\<lparr>queue := Some \<lparr>maxsize = 0, items = [2, 3]\<rparr>\<rparr>))"
proof -
  let ?p1 = "(started_pool 2)\<lparr>queue := Some \<lparr>maxsize = 0, items = [1]\<rparr>\<rparr>"
  let ?p0 = "(started_pool 2)\<lparr>queue := Some \<lparr>maxsize = 0, items = []\<rparr>\<rparr>"
  have pb: "put_back ?p1 0 =
      (Returned (), (started_pool 2)\<lparr>queue := Some \<lparr>maxsize = 0, items = [1, 0]\<rparr>\<rparr>)"
    using put_back_unbounded[of ?p1 "\<lparr>maxsize = 0, items = [1]\<rparr>" 0] by simp
  have str: "stale_consumer (Some RuntimeError)
      (PyStr ''This consumer has been stopped, and can no longer be used'')"
    by (simp add: stale_consumer_def py_eq_str_def)
  have cl: "clear ?p1 0 = (Returned 1, ?p0)"
    using clear_eq[of ?p1 "\<lparr>maxsize = 0, items = [1]\<rparr>" 0] by simp
  have rl: "reload (started_transport 2) ?p0 0 =
      (Returned 2, \<lparr>opened = 4, refused = [], stopped = []\<rparr>,
       (started_pool 2)\<lparr>queue := Some \<lparr>maxsize = 0, items = [2, 3]\<rparr>\<rparr>)"
    using reload_unbounded[where p="?p0" and q="\<lparr>maxsize = 0, items = []\<rparr>"
        and w="started_transport 2" and k=0]
    by (simp add: started_transport_2 started_pool_2 pool_of_size_fields accepts_def upt_conv_Cons)
  have e1: "RpcContext_exit (started_transport 2) (Some ?p1) 0 (Some RuntimeError)
       (PyExcInstance RuntimeError ''This consumer has been stopped, and can no longer be used'') =
     (Returned (), \<lparr>opened = 2, refused = [], stopped = []\<rparr>,
      Some ((started_pool 2)\<lparr>queue := Some \<lparr>maxsize = 0, items = [1, 0]\<rparr>\<rparr>))"
    unfolding RpcContext_exit_def using not_stale_consumer_instance pb
    by (simp add: started_transport_2)
  have e2: "RpcContext_exit (started_transport 2) (Some ?p1) 0 (Some RuntimeError)
       (PyStr ''This consumer has been stopped, and can no longer be used'') =
     (Returned (), \<lparr>opened = 4, refused = [], stopped = [0]\<rparr>,
      Some ((started_pool 2)\<lparr>queue := Some \<lparr>maxsize = 0, items = [2, 3]\<rparr>\<rparr>))"
    unfolding RpcContext_exit_def using str cl rl by (simp add: RpcContext_stop_def)
  from next_of_started_pool_2 e1 e2 show ?thesis by blast
qed

subsection \<open>C2: the buffer and the pool size\<close>

text \<open>
  C2 says that the buffer never holds more than \<^verbatim>\<open>pool_size\<close> sessions, in
  whatever order the pool's operations are called.  The queue is made without a bound, so
  the code lets the buffer grow.  A pool of size 1 is started and its session 0 is taken;
  \<^verbatim>\<open>start\<close> is called again and fills a new buffer with session 1; the scope of
  session 0 ends normally and session 0 is put back: the buffer holds 2 sessions.  Also
  \<^verbatim>\<open>_reload(1)\<close> on the started pool, whose buffer already holds \<^verbatim>\<open>pool_size\<close>
  sessions, adds a second one, because \<^verbatim>\<open>full()\<close> is false on a queue without bound.
\<close>

theorem buffer_grows_past_pool_size:
  "run [Start, Next, Start, Exit 0 None PyNone] (transport0, pool_of_size 1, []) =
     (\<lparr>opened = 2, refused = [], stopped = []\<rparr>,
      (started_pool 1)\<lparr>queue := Some \<lparr>maxsize = 0, items = [1, 0]\<rparr>\<rparr>, []) \<and>
   buffer_size ((started_pool 1)\<lparr>queue := Some \<lparr>maxsize = 0, items = [1, 0]\<rparr>\<rparr>) = 2 \<and>
   pool_size ((started_pool 1)\<lparr>queue := Some \<lparr>maxsize = 0, items = [1, 0]\<rparr>\<rparr>) = 1 \<and>
   buffer_size (started_pool 1) = 1 \<and>
   reload (started_transport 1) (started_pool 1) 1 =
     (Returned 1, \<lparr>opened = 2, refused = [], stopped = []\<rparr>,
      (started_pool 1)\<lparr>queue := Some \<lparr>maxsize = 0, items = [0, 1]\<rparr>\<rparr>)"
proof -
  let ?e = "(started_pool 1)\<lparr>queue := Some \<lparr>maxsize = 0, items = []\<rparr>\<rparr>"
  let ?b = "(started_pool 1)\<lparr>queue := Some \<lparr>maxsize = 0, items = [1]\<rparr>\<rparr>"
  let ?c = "(started_pool 1)\<lparr>queue := Some \<lparr>maxsize = 0, items = [1, 0]\<rparr>\<rparr>"
  have a1: "start transport0 (pool_of_size 1) = (Returned (), started_transport 1, started_pool 1)"
    by (simp add: started_pool_def started_transport_def start_eq accepts_transport0)
  have a2: "buffer_size (started_pool 1) = 1"
    by (simp add: buffer_size_def qsize_def started_pool_1)
  have a3: "pool_next (started_pool 1) None = (Returned 0, ?e)"
    by (simp add: pool_next_eq started_pool_1)
  have a4: "start (started_transport 1) ?e = (Returned (), \<lparr>opened = 2, refused = [], stopped = []\<rparr>, ?b)"
    by (simp add: start_eq started_transport_1 started_pool_1 pool_of_size_fields accepts_def
          upt_conv_Cons)
  have pb: "put_back ?b 0 = (Returned (), ?c)"
    using put_back_unbounded[of ?b "\<lparr>maxsize = 0, items = [1]\<rparr>" 0] by simp
  have a5: "RpcContext_exit \<lparr>opened = 2, refused = [], stopped = []\<rparr> (Some ?b) 0 None PyNone =
      (Returned (), \<lparr>opened = 2, refused = [], stopped = []\<rparr>, Some ?c)"
    unfolding RpcContext_exit_def using pb by (simp add: stale_consumer_def)
  have s1: "step Start (transport0, pool_of_size 1, []) = (started_transport 1, started_pool 1, [])"
    by (simp add: a1)
  have s2: "step Next (started_transport 1, started_pool 1, []) = (started_transport 1, ?e, [0])"
    by (simp add: a3)
  have s3: "step Start (started_transport 1, ?e, [0]) = (\<lparr>opened = 2, refused = [], stopped = []\<rparr>, ?b, [0])"
    by (simp add: a4)
  have s4: "step (Exit 0 None PyNone) (\<lparr>opened = 2, refused = [], stopped = []\<rparr>, ?b, [0]) =
      (\<lparr>opened = 2, refused = [], stopped = []\<rparr>, ?c, [])"
    using a5 by simp
  have a0: "run [Start, Next, Start, Exit 0 None PyNone] (transport0, pool_of_size 1, []) =
      (\<lparr>opened = 2, refused = [], stopped = []\<rparr>, ?c, [])"
    by (simp only: run.simps s1 s2 s3 s4)
  have a6: "buffer_size ?c = 2"
    by (simp add: buffer_size_def qsize_def)
  have a7: "pool_size ?c = 1"
    by (simp add: started_pool_1 pool_of_size_fields)
  have a8: "reload (started_transport 1) (started_pool 1) 1 =
     (Returned 1, \<lparr>opened = 2, refused = [], stopped = []\<rparr>,
      (started_pool 1)\<lparr>queue := Some \<lparr>maxsize = 0, items = [0, 1]\<rparr>\<rparr>)"
    using reload_unbounded[where p="started_pool 1" and q="\<lparr>maxsize = 0, items = [0]\<rparr>"
        and w="started_transport 1" and k=1]
    by (simp add: started_pool_1 started_transport_1 accepts_def)
  from a0 a2 a6 a7 a8 show ?thesis by blast
qed

subsection \<open>C3: a scope that ends with a connection error\<close>




subsection \<open>C4: the context data of a named pool\<close>




subsection \<open>C5: taking a session\<close>

text \<open>
  C5 says that \<^verbatim>\<open>next\<close> on an empty buffer blocks until a session is put back, and
  that it fails only on a pool that was never started.  The code asks the queue with
  timeout \<^verbatim>\<open>False\<close>, that is 0.  A pool of size 1 is started and its session is taken:
  the pool is started, its buffer is there and is empty, and the next call of \<^verbatim>\<open>next\<close>
  raises \<^verbatim>\<open>Empty\<close>; it neither blocks nor returns.
\<close>

theorem next_on_empty_buffer_raises_Empty:
  "is_started (snd (pool_next (started_pool 1) None)) \<and>
   queue (snd (pool_next (started_pool 1) None)) = Some \<lparr>maxsize = 0, items = []\<rparr> \<and>
   pool_next (snd (pool_next (started_pool 1) None)) None =
     (Raised Empty, snd (pool_next (started_pool 1) None)) \<and>
   fst (pool_next (snd (pool_next (started_pool 1) None)) None) \<noteq> Blocked"
  by (simp add: pool_next_eq started_pool_1 is_started_def)

text \<open>
  C5, amended.  \<^verbatim>\<open>next\<close> never blocks and its result does not depend on the timeout
  argument.  On a pool without buffer (never started, or stopped) it raises
  \<^verbatim>\<open>AttributeError\<close>; on an empty buffer it raises \<^verbatim>\<open>Empty\<close> at once and leaves the
  pool as it is; otherwise it returns the first session of the buffer and removes it.
\<close>

theorem next_never_blocks:
  "pool_next p tmo =
     (case queue p of
        None \<Rightarrow> (Raised AttributeError, p)
      | Some q \<Rightarrow>
          (case items q of
             [] \<Rightarrow> (Raised Empty, p)
           | ctx # rest \<Rightarrow> (Returned ctx, p\<lparr>queue := Some (q\<lparr>items := rest\<rparr>)\<rparr>))) \<and>
   fst (pool_next p tmo) \<noteq> Blocked \<and>
   pool_next p tmo = pool_next p None"
  by (simp add: pool_next_eq split: option.splits list.splits)

subsection \<open>C6: a scope that ends in any other way\<close>

text \<open>
  C6.  Let a pool have a buffer (made by \<^verbatim>\<open>start\<close>, so without bound), let a session
  be taken from it, and let the scope of that session end normally or with an error that
  is neither the stale-consumer signature nor \<^verbatim>\<open>ConnectionError\<close>.  Then \<^verbatim>\<open>__exit__\<close>
  returns, the session is at the end of the buffer, nothing has been opened or stopped,
  and the buffer is as long as it was before the session was taken.
\<close>

theorem other_scope_end_puts_session_back:
  assumes "queue p = Some q" and "maxsize q \<le> 0"
    and "pool_next p tmo = (Returned ctx, p1)"
    and "\<not> stale_consumer exc_type exc_value" and "exc_type \<noteq> Some ConnectionError"
  shows "RpcContext_exit w (Some p1) ctx exc_type exc_value =
           (Returned (), w, Some (p\<lparr>queue := Some (q\<lparr>items := tl (items q) @ [ctx]\<rparr>)\<rparr>)) \<and>
         items q = ctx # tl (items q) \<and>
         length (tl (items q) @ [ctx]) = length (items q)"
proof -
  note nx = pool_next_Returned[OF assms(1,3)]
  have len: "length (tl (items q) @ [ctx]) = length (items q)"
    by (subst (2) nx(1)) simp
  have q1: "queue p1 = Some (q\<lparr>items := tl (items q)\<rparr>)"
    by (simp add: nx(2))
  have "put_back p1 ctx = (Returned (), p1\<lparr>queue := Some (q\<lparr>items := tl (items q) @ [ctx]\<rparr>)\<rparr>)"
    using put_back_unbounded[OF q1, of ctx] assms(2) by simp
  with assms(4,5) nx len show ?thesis
    by (simp add: RpcContext_exit_def)
qed

theorem other_scope_end_puts_session_back_witness:
  "queue (started_pool 2) = Some \<lparr>maxsize = 0, items = [0, 1]\<rparr> \<and>
   maxsize \<lparr>maxsize = 0, items = [0, 1::nat]\<rparr> \<le> 0 \<and>
   pool_next (started_pool 2) None =
     (Returned 0, (started_pool 2)\<lparr>queue := Some \<lparr>maxsize = 0, items = [1]\<rparr>\<rparr>) \<and>
   \<not> stale_consumer (Some (OtherException ''KeyError'')) (PyExcInstance (OtherException ''KeyError'') ''k'') \<and>
   Some (OtherException ''KeyError'') \<noteq> Some ConnectionError \<and>
   RpcContext_exit (started_transport 2)
       (Some ((started_pool 2)\<lparr>queue := Some \<lparr>maxsize = 0, items = [1]\<rparr>\<rparr>)) 0
       (Some (OtherException ''KeyError'')) (PyExcInstance (OtherException ''KeyError'') ''k'') =
     (Returned (), started_transport 2,
      Some ((started_pool 2)\<lparr>queue := Some \<lparr>maxsize = 0, items = [1, 0]\<rparr>\<rparr>))"
proof -
  have q: "queue (started_pool 2) = Some \<lparr>maxsize = 0, items = [0, 1]\<rparr>"
    by (simp add: started_pool_2)
  have ns: "\<not> stale_consumer (Some (OtherException ''KeyError''))
      (PyExcInstance (OtherException ''KeyError'') ''k'')"
    by (rule not_stale_consumer_instance)
  show ?thesis
    using other_scope_end_puts_session_back[OF q _ next_of_started_pool_2 ns, of "started_transport 2"]
    by (simp add: next_of_started_pool_2 q ns)
qed

subsection \<open>C7: stopping the pool\<close>

text \<open>
  C7.  Let a pool have a buffer whose sessions are distinct and have not been stopped.
  Then \<^verbatim>\<open>stop\<close> returns, it has stopped every session of the buffer, in the buffer's
  order, and nothing else, and the pool has no buffer.  On that pool \<^verbatim>\<open>next\<close> raises
  \<^verbatim>\<open>AttributeError\<close> and leaves the pool as it is, so every later \<^verbatim>\<open>next\<close> fails in
  the same way.
\<close>

theorem stop_closes_buffer_and_disables_next:
  assumes "queue p = Some q" and "distinct (items q)"
    and "set (items q) \<inter> set (stopped w) = {}"
  shows "stop w p = (Returned (), w\<lparr>stopped := stopped w @ items q\<rparr>, p\<lparr>queue := None\<rparr>) \<and>
         pool_next (p\<lparr>queue := None\<rparr>) tmo = (Raised AttributeError, p\<lparr>queue := None\<rparr>)"
  using assms by (simp add: stop_eq pool_next_eq)

theorem stop_closes_buffer_and_disables_next_witness:
  "queue (started_pool 2) = Some \<lparr>maxsize = 0, items = [0, 1]\<rparr> \<and>
   distinct (items \<lparr>maxsize = 0, items = [0, 1::nat]\<rparr>) \<and>
   set (items \<lparr>maxsize = 0, items = [0, 1::nat]\<rparr>) \<inter> set (stopped (started_transport 2)) = {} \<and>
   stop (started_transport 2) (started_pool 2) =
     (Returned (), \<lparr>opened = 2, refused = [], stopped = [0, 1]\<rparr>, (started_pool 2)\<lparr>queue := None\<rparr>) \<and>
   pool_next ((started_pool 2)\<lparr>queue := None\<rparr>) None =
     (Raised AttributeError, (started_pool 2)\<lparr>queue := None\<rparr>)"
  using stop_closes_buffer_and_disables_next[of "started_pool 2" "\<lparr>maxsize = 0, items = [0, 1]\<rparr>"
      "started_transport 2" None]
  by (simp add: started_pool_2 started_transport_2)

subsection \<open>C8: is\_started\<close>

text \<open>
  C8.  \<^verbatim>\<open>is_started\<close> is true exactly when \<^verbatim>\<open>state\<close> is not \<^verbatim>\<open>'NOT_STARTED'\<close>.
  \<^verbatim>\<open>stop\<close> leaves \<^verbatim>\<open>state\<close> as it was, however it ends, so \<^verbatim>\<open>is_started\<close> after
  \<^verbatim>\<open>stop\<close> is what it was before.  For the pool of size 2 that has been started,
  \<^verbatim>\<open>is_started\<close> is true, \<^verbatim>\<open>stop\<close> returns and removes the buffer, and
  \<^verbatim>\<open>is_started\<close> is still true.
\<close>

theorem is_started_iff_state_and_kept_by_stop:
  "is_started p = (state p \<noteq> ''NOT_STARTED'') \<and>
   state (snd (snd (stop w p))) = state p \<and>
   is_started (snd (snd (stop w p))) = is_started p \<and>
   is_started (started_pool 2) \<and>
   fst (stop (started_transport 2) (started_pool 2)) = Returned () \<and>
   queue (snd (snd (stop (started_transport 2) (started_pool 2)))) = None \<and>
   is_started (snd (snd (stop (started_transport 2) (started_pool 2))))"
proof -
  have a: "is_started p = (state p \<noteq> ''NOT_STARTED'')"
    by (simp add: is_started_def)
  have b: "state (snd (snd (stop w p))) = state p"
    by (rule stop_state)
  have c: "is_started (snd (snd (stop w p))) = is_started p"
    by (simp add: is_started_def stop_state)
  have d: "is_started (started_pool 2)"
    by (simp add: started_pool_2 is_started_def)
  have "stop (started_transport 2) (started_pool 2) =
      (Returned (), (started_transport 2)\<lparr>stopped := stopped (started_transport 2) @ [0, 1]\<rparr>,
       (started_pool 2)\<lparr>queue := None\<rparr>)"
    using stop_eq[of "started_pool 2" "\<lparr>maxsize = 0, items = [0, 1]\<rparr>" "started_transport 2"]
    by (simp add: started_pool_2 started_transport_2)
  then have e: "fst (stop (started_transport 2) (started_pool 2)) = Returned ()"
    and f: "queue (snd (snd (stop (started_transport 2) (started_pool 2)))) = None"
    by simp_all
  have g: "is_started (snd (snd (stop (started_transport 2) (started_pool 2))))"
    using d by (simp add: is_started_def stop_state)
  from a b c d e f g show ?thesis by blast
qed

subsection \<open>C9: starting a started pool again\<close>

text \<open>
  C9.  Let a pool have a buffer, whose sessions were opened before, and let the cluster
  accept \<^verbatim>\<open>pool_size\<close> new sessions.  Then \<^verbatim>\<open>start\<close>
  returns; the buffer is a new one and holds exactly the \<^verbatim>\<open>pool_size\<close> sessions opened
  by this call; none of the sessions of the old buffer is in it; and no session has been
  stopped by the call.
\<close>

theorem second_start_replaces_buffer_without_stopping:
  assumes "queue p = Some q" and "set (items q) \<subseteq> {..<opened w}"
    and "accepts w (nat (pool_size p))"
  shows "start w p =
           (Returned (), w\<lparr>opened := opened w + nat (pool_size p)\<rparr>,
            p\<lparr>state := ''STARTED'',
              queue := Some \<lparr>maxsize = 0, items = [opened w ..< opened w + nat (pool_size p)]\<rparr>\<rparr>) \<and>
         set (items q) \<inter> set [opened w ..< opened w + nat (pool_size p)] = {} \<and>
         stopped (fst (snd (start w p))) = stopped w"
  using assms by (auto simp: start_eq)

theorem second_start_replaces_buffer_without_stopping_witness:
  "queue (started_pool 2) = Some \<lparr>maxsize = 0, items = [0, 1]\<rparr> \<and>
   set (items \<lparr>maxsize = 0, items = [0, 1::nat]\<rparr>) \<subseteq> {..<opened (started_transport 2)} \<and>
   accepts (started_transport 2) (nat (pool_size (started_pool 2))) \<and>
   start (started_transport 2) (started_pool 2) =
     (Returned (), \<lparr>opened = 4, refused = [], stopped = []\<rparr>,
      (pool_of_size 2)\<lparr>state := ''STARTED'', queue := Some \<lparr>maxsize = 0, items = [2, 3]\<rparr>\<rparr>) \<and>
   set [0, 1::nat] \<inter> set [2, 3] = {} \<and>
   stopped (fst (snd (start (started_transport 2) (started_pool 2)))) = []"
  using second_start_replaces_buffer_without_stopping[of "started_pool 2"
      "\<lparr>maxsize = 0, items = [0, 1]\<rparr>" "started_transport 2"]
  unfolding started_pool_2 started_transport_2
  by (simp add: pool_of_size_fields accepts_def upt_conv_Cons)

subsection \<open>C10: the registry of named pools\<close>



end
